theory Spec2Isabelle
  imports Main "HOL-Library.Finite_Map" "HOL-Library.Char_ord" "HOL-Library.List_Lexorder"
begin

section \<open>Data model of \<open>CRDT.py\<close>\<close>

text \<open>
  A replica identifier is a Python \<open>str\<close>; a count is an unbounded Python \<open>int\<close>.
  The contents of a Python dictionary are a finite map: equality of two dictionaries
  (\<open>==\<close>) compares their entries and ignores insertion order, as equality of finite
  maps does.
\<close>

type_synonym replica_id = string

type_synonym counts = "(replica_id, int) fmap"

text \<open>
  \<open>self.state\<close> is created as \<open>collections.defaultdict(int)\<close> by the constructor and is
  replaced by the plain \<open>dict\<close> that \<open>merge\<close> builds (\<open>merged_state = {}\<close>). The two
  differ in what subscripting an absent key does, so the model keeps the kind of the
  dictionary.
\<close>

datatype state_dict = DefaultDict counts | PlainDict counts

fun items :: "state_dict \<Rightarrow> counts" where
  "items (DefaultDict d) = d"
| "items (PlainDict d) = d"

record gcounter =
  replica_id :: replica_id
  state :: state_dict

datatype error = ValueError | KeyError

section \<open>Dictionary primitives\<close>

text \<open>\<open>d.get(k, default)\<close>: never raises and never inserts, for either kind.\<close>

definition dict_get :: "counts \<Rightarrow> replica_id \<Rightarrow> int \<Rightarrow> int" where
  "dict_get d k dflt = (case fmlookup d k of None \<Rightarrow> dflt | Some v \<Rightarrow> v)"

text \<open>
  \<open>d[k]\<close> as an expression. A plain \<open>dict\<close> raises \<open>KeyError\<close> on an absent key; a
  \<open>defaultdict(int)\<close> calls \<open>__missing__\<close>, which stores \<open>int() = 0\<close> under the key and
  returns it.
\<close>

fun getitem :: "state_dict \<Rightarrow> replica_id \<Rightarrow> error + (int \<times> state_dict)" where
  "getitem (PlainDict d) k =
     (case fmlookup d k of None \<Rightarrow> Inl KeyError | Some v \<Rightarrow> Inr (v, PlainDict d))"
| "getitem (DefaultDict d) k =
     (case fmlookup d k of
        None \<Rightarrow> Inr (0, DefaultDict (fmupd k 0 d))
      | Some v \<Rightarrow> Inr (v, DefaultDict d))"

text \<open>\<open>d[k] = v\<close>.\<close>

fun setitem :: "state_dict \<Rightarrow> replica_id \<Rightarrow> int \<Rightarrow> state_dict" where
  "setitem (PlainDict d) k v = PlainDict (fmupd k v d)"
| "setitem (DefaultDict d) k v = DefaultDict (fmupd k v d)"

text \<open>
  \<open>d.values()\<close>: one value per key. Python yields them in insertion order; they are
  taken here in key order, and only their sum is ever used.
\<close>

definition dict_values :: "counts \<Rightarrow> int list" where
  "dict_values d = map snd (sorted_list_of_fmap d)"

section \<open>The operations of \<open>GCounter\<close>\<close>

text \<open>
  The loop of \<open>merge\<close> over \<open>all_ids\<close>, with \<open>merged_state\<close> as accumulator. Each
  iteration stores \<open>max(state1.get(id, 0), state2.get(id, 0))\<close> under \<open>id\<close>.
\<close>

fun merge_loop :: "replica_id list \<Rightarrow> counts \<Rightarrow> counts \<Rightarrow> counts \<Rightarrow> counts" where
  "merge_loop [] state1 state2 merged_state = merged_state"
| "merge_loop (r # rs) state1 state2 merged_state =
     (let count1 = dict_get state1 r 0;
          count2 = dict_get state2 r 0
      in merge_loop rs state1 state2 (fmupd r (max count1 count2) merged_state))"

text \<open>
  \<open>all_ids = set(state1.keys()) | set(state2.keys())\<close>. A Python set is iterated in an
  order of its own; the loop is run here in key order (lemma \<open>merge_loop_any_order\<close>
  below shows that every order builds the same dictionary).
\<close>

definition merge :: "counts \<Rightarrow> counts \<Rightarrow> counts" where
  "merge state1 state2 =
     (let all_ids = fmdom state1 |\<union>| fmdom state2
      in merge_loop (sorted_list_of_fset all_ids) state1 state2 fmempty)"

text \<open>
  The constructor. \<open>if initial_state:\<close> is false for \<open>None\<close> and for the empty
  dictionary; otherwise the state becomes the plain dictionary returned by \<open>merge\<close>.
\<close>

definition init :: "replica_id \<Rightarrow> counts option \<Rightarrow> gcounter" where
  "init rid initial_state =
     (let self = \<lparr>replica_id = rid, state = DefaultDict fmempty\<rparr>
      in case initial_state of
           None \<Rightarrow> self
         | Some d \<Rightarrow>
             if d = fmempty then self
             else self\<lparr>state := PlainDict (merge (items (state self)) d)\<rparr>)"

text \<open>
  \<open>increment\<close>: the guard, then \<open>self.state[self.replica_id] += amount\<close> (a read of the
  entry followed by a write), then the read of the entry for the returned operation.
  A raise leaves the object as it was when the exception left the method.
\<close>

definition increment :: "int \<Rightarrow> gcounter \<Rightarrow> (error + counts) \<times> gcounter" where
  "increment amount self =
     (if amount < 0 then (Inl ValueError, self)
      else
        case getitem (state self) (replica_id self) of
          Inl e \<Rightarrow> (Inl e, self)
        | Inr (old, st1) \<Rightarrow>
            (let st2 = setitem st1 (replica_id self) (old + amount)
             in (case getitem st2 (replica_id self) of
                   Inl e \<Rightarrow> (Inl e, self\<lparr>state := st2\<rparr>)
                 | Inr (new, st3) \<Rightarrow>
                     (Inr (fmupd (replica_id self) new fmempty), self\<lparr>state := st3\<rparr>))))"

text \<open>\<open>apply_update\<close> returns nothing; the model returns the updated object.\<close>

definition apply_update :: "counts \<Rightarrow> gcounter \<Rightarrow> gcounter" where
  "apply_update update_state self =
     self\<lparr>state := PlainDict (merge (items (state self)) update_state)\<rparr>"

text \<open>\<open>value\<close>: \<open>sum(self.state.values())\<close>, returned with the object after the call.\<close>

definition valuef :: "gcounter \<Rightarrow> int \<times> gcounter" where
  "valuef self = (sum_list (dict_values (items (state self))), self)"

section \<open>Calls on a replica\<close>

text \<open>
  A replica is used through its constructor and its two mutating methods. A call that
  raises leaves the object in the state the method had reached; the next call goes on
  from there.
\<close>

datatype call = Increment int | ApplyUpdate counts

fun step :: "call \<Rightarrow> gcounter \<Rightarrow> gcounter" where
  "step (Increment amount) self = snd (increment amount self)"
| "step (ApplyUpdate update_state) self = apply_update update_state self"

fun run :: "call list \<Rightarrow> gcounter \<Rightarrow> gcounter" where
  "run [] self = self"
| "run (c # cs) self = run cs (step c self)"

text \<open>The states a replica goes through: before the first call and after each one.\<close>

fun trace :: "call list \<Rightarrow> gcounter \<Rightarrow> gcounter list" where
  "trace [] self = [self]"
| "trace (c # cs) self = self # trace cs (step c self)"

text \<open>Every count stored in a dictionary is at least 0.\<close>

definition all_nonneg :: "counts \<Rightarrow> bool" where
  "all_nonneg d = fmpred (\<lambda>k v. 0 \<le> v) d"

section \<open>Facts about the dictionary primitives and \<open>merge\<close>\<close>

lemma fmlookup_merge_loop:
  "fmlookup (merge_loop rs a b acc) k =
     (if k \<in> set rs then Some (max (dict_get a k 0) (dict_get b k 0)) else fmlookup acc k)"
  by (induction rs arbitrary: acc) (auto simp: Let_def)

text \<open>The order in which \<open>all_ids\<close> is iterated does not matter.\<close>

lemma merge_loop_any_order:
  "set rs = set rs' \<Longrightarrow> merge_loop rs a b acc = merge_loop rs' a b acc"
  by (rule fmap_ext) (simp add: fmlookup_merge_loop)

lemma fmlookup_merge:
  "fmlookup (merge a b) k =
     (if k |\<in>| fmdom a |\<union>| fmdom b then Some (max (dict_get a k 0) (dict_get b k 0))
      else None)"
  by (simp add: merge_def fmlookup_merge_loop)

lemma fmdom_merge: "fmdom (merge a b) = fmdom a |\<union>| fmdom b"
  by (rule fset_eqI) (simp add: fmlookup_dom_iff fmlookup_merge)

lemma dict_get_merge: "dict_get (merge a b) k 0 = max (dict_get a k 0) (dict_get b k 0)"
  by (simp add: dict_get_def fmlookup_merge fmdom_notD split: option.splits)

lemma distinct_sorted_list_of_fset: "distinct (sorted_list_of_fset S)"
  by (simp add: sorted_list_of_fset.rep_eq)

lemma sum_dict_values:
  "sum_list (dict_values d) = (\<Sum>k\<in>fmdom' d. dict_get d k 0)"
proof -
  have "sum_list (dict_values d) = (\<Sum>k\<in>fmdom' d. the (fmlookup d k))"
    by (simp add: dict_values_def sorted_list_of_fmap_def comp_def fmdom'_alt_def
        sum_list_distinct_conv_sum_set distinct_sorted_list_of_fset)
  also have "\<dots> = (\<Sum>k\<in>fmdom' d. dict_get d k 0)"
    by (rule sum.cong) (auto simp: dict_get_def fmlookup_dom'_iff)
  finally show ?thesis .
qed

lemma all_nonneg_dict_get: "all_nonneg s \<Longrightarrow> 0 \<le> dict_get s k 0"
  by (auto simp: all_nonneg_def fmpred_iff dict_get_def split: option.splits)

lemma all_nonneg_merge: "all_nonneg s \<Longrightarrow> all_nonneg (merge s u)"
proof -
  assume nn: "all_nonneg s"
  have "0 \<le> v" if "fmlookup (merge s u) k = Some v" for k v
  proof -
    from that have "v = max (dict_get s k 0) (dict_get u k 0)"
      by (simp add: fmlookup_merge split: if_splits)
    with all_nonneg_dict_get [OF nn, of k] show ?thesis by simp
  qed
  then show ?thesis by (simp add: all_nonneg_def fmpred_iff)
qed

lemma merge_empty_single: "merge fmempty (fmupd k v fmempty) = fmupd k (max 0 v) fmempty"
  by (rule fmap_ext) (simp add: fmlookup_merge dict_get_def)

section \<open>Facts about \<open>increment\<close>\<close>

text \<open>
  With a non-negative amount, \<open>increment\<close> succeeds on a \<open>defaultdict\<close> and on a plain
  dictionary that holds the replica's own id; on a plain dictionary without that id the
  read of \<open>self.state[self.replica_id]\<close> raises \<open>KeyError\<close>.
\<close>

lemma increment_default:
  assumes "0 \<le> amount" "state self = DefaultDict d"
  shows "increment amount self =
    (Inr (fmupd (replica_id self) (dict_get d (replica_id self) 0 + amount) fmempty),
     self\<lparr>state := DefaultDict (fmupd (replica_id self) (dict_get d (replica_id self) 0 + amount) d)\<rparr>)"
  using assms by (simp add: increment_def dict_get_def split: option.splits)

lemma increment_plain_present:
  assumes "0 \<le> amount" "state self = PlainDict d" "fmlookup d (replica_id self) = Some v"
  shows "increment amount self =
    (Inr (fmupd (replica_id self) (v + amount) fmempty),
     self\<lparr>state := PlainDict (fmupd (replica_id self) (v + amount) d)\<rparr>)"
  using assms by (simp add: increment_def)

lemma increment_plain_absent:
  assumes "0 \<le> amount" "state self = PlainDict d" "fmlookup d (replica_id self) = None"
  shows "increment amount self = (Inl KeyError, self)"
  using assms by (simp add: increment_def)

lemma increment_negative: "amount < 0 \<Longrightarrow> increment amount self = (Inl ValueError, self)"
  by (simp add: increment_def)

text \<open>What a call of \<open>increment\<close> does to the stored counts, in every case.\<close>

lemma items_increment:
  "items (state (snd (increment amount self))) = items (state self) \<or>
   (0 \<le> amount \<and> items (state (snd (increment amount self))) =
      fmupd (replica_id self) (dict_get (items (state self)) (replica_id self) 0 + amount)
        (items (state self)))"
proof (cases "amount < 0")
  case True
  then show ?thesis by (simp add: increment_negative)
next
  case False
  then have nn: "0 \<le> amount" by simp
  show ?thesis
  proof (cases "state self")
    case (DefaultDict d)
    then show ?thesis using nn by (simp add: increment_default)
  next
    case (PlainDict d)
    then show ?thesis using nn
      by (cases "fmlookup d (replica_id self)")
        (simp_all add: increment_plain_absent increment_plain_present dict_get_def)
  qed
qed

section \<open>Facts about the sum of the counts\<close>

lemma total_fmupd:
  "(\<Sum>j\<in>fmdom' (fmupd k v d). dict_get (fmupd k v d) j 0)
     = (\<Sum>j\<in>fmdom' d. dict_get d j 0) - dict_get d k 0 + v"
proof (cases "k \<in> fmdom' d")
  case True
  have "(\<Sum>j\<in>fmdom' (fmupd k v d). dict_get (fmupd k v d) j 0)
        = dict_get (fmupd k v d) k 0 + (\<Sum>j\<in>fmdom' d - {k}. dict_get (fmupd k v d) j 0)"
    using True by (simp add: insert_absorb sum.remove)
  also have "(\<Sum>j\<in>fmdom' d - {k}. dict_get (fmupd k v d) j 0) = (\<Sum>j\<in>fmdom' d - {k}. dict_get d j 0)"
    by (rule sum.cong) (auto simp: dict_get_def)
  also have "\<dots> = (\<Sum>j\<in>fmdom' d. dict_get d j 0) - dict_get d k 0"
    using True by (simp add: sum.remove)
  finally show ?thesis by (simp add: dict_get_def)
next
  case False
  have "(\<Sum>j\<in>fmdom' (fmupd k v d). dict_get (fmupd k v d) j 0)
        = dict_get (fmupd k v d) k 0 + (\<Sum>j\<in>fmdom' d. dict_get (fmupd k v d) j 0)"
    using False by simp
  also have "(\<Sum>j\<in>fmdom' d. dict_get (fmupd k v d) j 0) = (\<Sum>j\<in>fmdom' d. dict_get d j 0)"
    using False by (intro sum.cong) (auto simp: dict_get_def)
  finally show ?thesis using False by (simp add: dict_get_def fmdom'_notD)
qed

lemma total_merge_ge:
  assumes "all_nonneg s"
  shows "(\<Sum>k\<in>fmdom' s. dict_get s k 0) \<le> (\<Sum>k\<in>fmdom' (merge s u). dict_get (merge s u) k 0)"
proof -
  have sub: "fmdom' s \<subseteq> fmdom' (merge s u)"
    by (simp add: fmdom'_alt_def fmdom_merge)
  have "(\<Sum>k\<in>fmdom' s. dict_get s k 0) \<le> (\<Sum>k\<in>fmdom' s. dict_get (merge s u) k 0)"
    by (rule sum_mono) (simp add: dict_get_merge)
  also have "\<dots> \<le> (\<Sum>k\<in>fmdom' (merge s u). dict_get (merge s u) k 0)"
  proof (rule sum_mono2)
    show "finite (fmdom' (merge s u))" by (simp add: fmdom'_alt_def)
    show "fmdom' s \<subseteq> fmdom' (merge s u)" by (rule sub)
    fix b assume "b \<in> fmdom' (merge s u) - fmdom' s"
    then have "dict_get s b 0 = 0" by (simp add: dict_get_def fmdom'_notD)
    then show "0 \<le> dict_get (merge s u) b 0" by (simp add: dict_get_merge)
  qed
  finally show ?thesis .
qed

lemma value_items:
  "fst (valuef self) = (\<Sum>k\<in>fmdom' (items (state self)). dict_get (items (state self)) k 0)"
  by (simp add: valuef_def sum_dict_values)

lemma value_step_ge:
  assumes "all_nonneg (items (state self))"
  shows "fst (valuef self) \<le> fst (valuef (step c self))"
proof (cases c)
  case (Increment amount)
  from items_increment [of amount self] show ?thesis
  proof
    assume "items (state (snd (increment amount self))) = items (state self)"
    then show ?thesis using Increment by (simp add: value_items)
  next
    assume "0 \<le> amount \<and> items (state (snd (increment amount self))) =
      fmupd (replica_id self) (dict_get (items (state self)) (replica_id self) 0 + amount)
        (items (state self))"
    then have nn: "0 \<le> amount"
      and eq: "items (state (step c self)) =
        fmupd (replica_id self) (dict_get (items (state self)) (replica_id self) 0 + amount)
          (items (state self))"
      using Increment by simp_all
    have "fst (valuef (step c self)) =
        fst (valuef self) - dict_get (items (state self)) (replica_id self) 0
          + (dict_get (items (state self)) (replica_id self) 0 + amount)"
      unfolding value_items eq by (rule total_fmupd)
    then show ?thesis using nn by simp
  qed
next
  case (ApplyUpdate u)
  then show ?thesis using total_merge_ge [OF assms, of u]
    by (simp add: value_items apply_update_def)
qed

lemma all_nonneg_fmupd: "all_nonneg d \<Longrightarrow> 0 \<le> v \<Longrightarrow> all_nonneg (fmupd k v d)"
  by (auto simp: all_nonneg_def fmpred_iff split: if_splits)

lemma all_nonneg_step:
  assumes "all_nonneg (items (state self))"
  shows "all_nonneg (items (state (step c self)))"
proof (cases c)
  case (Increment amount)
  from items_increment [of amount self] show ?thesis
  proof
    assume "items (state (snd (increment amount self))) = items (state self)"
    then show ?thesis using Increment assms by simp
  next
    assume "0 \<le> amount \<and> items (state (snd (increment amount self))) =
      fmupd (replica_id self) (dict_get (items (state self)) (replica_id self) 0 + amount)
        (items (state self))"
    then show ?thesis using Increment assms all_nonneg_dict_get [OF assms, of "replica_id self"]
      by (simp add: all_nonneg_fmupd)
  qed
next
  case (ApplyUpdate u)
  then show ?thesis using assms by (simp add: apply_update_def all_nonneg_merge)
qed

lemma all_nonneg_init: "all_nonneg (items (state (init rid initial_state)))"
proof -
  have e: "all_nonneg fmempty" by (simp add: all_nonneg_def)
  show ?thesis
    by (auto simp: all_nonneg_merge init_def Let_def e split: option.splits)
qed

lemma all_nonneg_run:
  "all_nonneg (items (state self)) \<Longrightarrow> all_nonneg (items (state (run cs self)))"
  by (induction cs arbitrary: self) (simp_all add: all_nonneg_step)

lemma trace_lower_bound:
  "all_nonneg (items (state self)) \<Longrightarrow> \<forall>s \<in> set (trace cs self). fst (valuef self) \<le> fst (valuef s)"
proof (induction cs arbitrary: self)
  case Nil
  then show ?case by simp
next
  case (Cons c cs)
  have "fst (valuef self) \<le> fst (valuef (step c self))"
    by (rule value_step_ge [OF Cons.prems])
  moreover have "\<forall>s \<in> set (trace cs (step c self)). fst (valuef (step c self)) \<le> fst (valuef s)"
    by (rule Cons.IH [OF all_nonneg_step [OF Cons.prems]])
  ultimately show ?case by fastforce
qed

lemma sorted_trace:
  "all_nonneg (items (state self)) \<Longrightarrow> sorted (map (\<lambda>s. fst (valuef s)) (trace cs self))"
proof (induction cs arbitrary: self)
  case Nil
  then show ?case by simp
next
  case (Cons c cs)
  show ?case
    using trace_lower_bound [OF all_nonneg_step [OF Cons.prems], of cs c]
      value_step_ge [OF Cons.prems, of c] Cons.IH [OF all_nonneg_step [OF Cons.prems], of c]
    by fastforce
qed

text \<open>The trace lists the states after each prefix of the calls.\<close>

lemma trace_runs:
  "trace cs self = map (\<lambda>n. run (take n cs) self) [0..<Suc (length cs)]"
proof (induction cs arbitrary: self)
  case Nil
  then show ?case by simp
next
  case (Cons c cs)
  have "map (\<lambda>n. run (take n (c # cs)) self) [0..<Suc (length (c # cs))]
      = self # map (\<lambda>n. run (take n cs) (step c self)) [0..<Suc (length cs)]"
    by (subst map_upt_Suc) simp
  then show ?case by (simp add: Cons.IH)
qed

section \<open>The merge function\<close>

text \<open>
  Claim C2. For all counter-state maps \<open>a\<close> and \<open>b\<close>, the key set of \<open>merge(a, b)\<close> is
  the union of the key sets of \<open>a\<close> and \<open>b\<close>, and the count it stores for each key \<open>k\<close>
  of that union is the maximum of \<open>a\<close>'s and \<open>b\<close>'s counts for \<open>k\<close>, a key absent from
  a map counting as 0.
\<close>

theorem merge_union_max:
  "fmdom (merge a b) = fmdom a |\<union>| fmdom b \<and>
   (\<forall>k. k |\<in>| fmdom a |\<union>| fmdom b \<longrightarrow>
      fmlookup (merge a b) k = Some (max (dict_get a k 0) (dict_get b k 0)))"
  by (simp add: fmdom_merge fmlookup_merge)

theorem merge_union_max_witness:
  "fmdom (merge (fmupd ''A'' 2 fmempty) (fmupd ''B'' 1 (fmupd ''A'' (- 5) fmempty)))
     = {|''A'', ''B''|} \<and>
   fmlookup (merge (fmupd ''A'' 2 fmempty) (fmupd ''B'' 1 (fmupd ''A'' (- 5) fmempty))) ''A''
     = Some 2 \<and>
   fmlookup (merge (fmupd ''A'' 2 fmempty) (fmupd ''B'' 1 (fmupd ''A'' (- 5) fmempty))) ''B''
     = Some 1"
  using merge_union_max [of "fmupd ''A'' 2 fmempty" "fmupd ''B'' 1 (fmupd ''A'' (- 5) fmempty)"]
  by (auto simp: dict_get_def)

text \<open>
  Claim C3. For all counter-state maps \<open>a\<close> and \<open>b\<close>, \<open>merge(a, b) == merge(b, a)\<close>.
\<close>

theorem merge_commutative: "merge a b = merge b a"
  by (rule fmap_ext) (simp add: fmlookup_merge max.commute funion_commute)

text \<open>
  Claim C4. For all counter-state maps \<open>a\<close>, \<open>b\<close> and \<open>c\<close>,
  \<open>merge(merge(a, b), c) == merge(a, merge(b, c))\<close>.
\<close>

theorem merge_associative: "merge (merge a b) c = merge a (merge b c)"
  by (rule fmap_ext)
    (simp add: fmlookup_merge fmdom_merge dict_get_merge max.assoc funion_assoc)

text \<open>
  Claim C5. For every counter-state map \<open>s\<close>, \<open>merge(s, s) == s\<close>; and applying the same
  update to a replica twice through \<open>apply_update\<close> leaves it in the same state as
  applying it once.
\<close>

theorem merge_idempotent:
  "merge s s = s \<and>
   apply_update u (apply_update u self) = apply_update u self"
proof
  show "merge s s = s"
    by (rule fmap_ext)
      (auto simp: fmlookup_merge dict_get_def fmdom_notD split: option.splits)
  have "merge (merge d u) u = merge d u" for d
    by (rule fmap_ext) (simp add: fmlookup_merge fmdom_merge dict_get_merge funion_assoc)
  then show "apply_update u (apply_update u self) = apply_update u self"
    by (simp add: apply_update_def)
qed

text \<open>
  Claim C8. For all counter-state maps \<open>a\<close> and \<open>b\<close> and every key \<open>k\<close>, the count of
  \<open>k\<close> in \<open>merge(a, b)\<close> is at least its count in \<open>a\<close> and at least its count in \<open>b\<close>,
  an absent key counting as 0: the merged state dominates both inputs.
\<close>

theorem merge_dominates:
  "dict_get a k 0 \<le> dict_get (merge a b) k 0 \<and> dict_get b k 0 \<le> dict_get (merge a b) k 0"
  by (simp add: dict_get_merge)

text \<open>
  Claim C10. If every count stored in the local state is at least 0, then so is every
  count of the state after merging in an update whose counts are arbitrary integers,
  negative ones included; this holds for \<open>merge\<close> itself and for \<open>apply_update\<close>, and
  every state the constructor builds (with or without an \<open>initial_state\<close>) has only
  counts that are at least 0.
\<close>

theorem merge_keeps_nonneg:
  "(all_nonneg s \<longrightarrow> all_nonneg (merge s u)) \<and>
   (all_nonneg (items (state self)) \<longrightarrow> all_nonneg (items (state (apply_update u self)))) \<and>
   all_nonneg (items (state (init rid initial_state)))"
proof -
  have e: "all_nonneg fmempty" by (simp add: all_nonneg_def)
  show ?thesis
    by (auto simp: all_nonneg_merge apply_update_def init_def Let_def e split: option.splits)
qed

theorem merge_keeps_nonneg_witness:
  "all_nonneg (fmupd ''A'' 2 fmempty) \<and>
   all_nonneg (merge (fmupd ''A'' 2 fmempty) (fmupd ''B'' (- 7) (fmupd ''A'' (- 5) fmempty))) \<and>
   fmlookup (merge (fmupd ''A'' 2 fmempty) (fmupd ''B'' (- 7) (fmupd ''A'' (- 5) fmempty))) ''A''
     = Some 2 \<and>
   fmlookup (merge (fmupd ''A'' 2 fmempty) (fmupd ''B'' (- 7) (fmupd ''A'' (- 5) fmempty))) ''B''
     = Some 0 \<and>
   all_nonneg (items (state (init ''A'' (Some (fmupd ''A'' 2 fmempty))))) \<and>
   all_nonneg (items (state (apply_update (fmupd ''B'' (- 7) (fmupd ''A'' (- 5) fmempty))
      (init ''A'' (Some (fmupd ''A'' 2 fmempty))))))"
proof -
  have h: "all_nonneg (fmupd ''A'' 2 fmempty)"
    by (auto simp: all_nonneg_def fmpred_iff split: if_splits)
  have v: "fmlookup (merge (fmupd ''A'' 2 fmempty)
        (fmupd ''B'' (- 7) (fmupd ''A'' (- 5) fmempty))) ''A'' = Some 2"
      "fmlookup (merge (fmupd ''A'' 2 fmempty)
        (fmupd ''B'' (- 7) (fmupd ''A'' (- 5) fmempty))) ''B'' = Some 0"
    by (simp_all add: fmlookup_merge dict_get_def)
  show ?thesis
    using h v merge_keeps_nonneg [of "fmupd ''A'' 2 fmempty"
        "fmupd ''B'' (- 7) (fmupd ''A'' (- 5) fmempty)"
        "init ''A'' (Some (fmupd ''A'' 2 fmempty))" "''A''" "Some (fmupd ''A'' 2 fmempty)"]
    by simp
qed

section \<open>The value of a replica\<close>

text \<open>
  Claim C9. \<open>value()\<close> returns the sum of the counts over all replica identifiers present
  in the local state map, and the replica is the same after the call as before it.
\<close>

theorem value_sum:
  "fst (valuef self) = (\<Sum>k\<in>fmdom' (items (state self)). dict_get (items (state self)) k 0) \<and>
   snd (valuef self) = self"
  by (simp add: valuef_def sum_dict_values)

text \<open>
  Claim C7. For every replica and every finite sequence of \<open>increment\<close> and
  \<open>apply_update\<close> calls on it, with arbitrary arguments, \<open>value()\<close> after a call is at
  least \<open>value()\<close> before it: in any state reached from the constructor, one more call
  does not lower the value, and the values along the whole sequence of states are
  non-decreasing. A call that raises counts as a call.
\<close>

theorem value_never_decreases:
  "fst (valuef (run cs (init rid initial_state)))
     \<le> fst (valuef (step c (run cs (init rid initial_state)))) \<and>
   sorted (map (\<lambda>s. fst (valuef s)) (trace cs (init rid initial_state)))"
  using value_step_ge [OF all_nonneg_run [OF all_nonneg_init]] sorted_trace [OF all_nonneg_init]
  by simp

theorem value_never_decreases_witness:
  "map (\<lambda>s. fst (valuef s))
     (trace [Increment 1, ApplyUpdate (fmupd ''A'' 2 fmempty), ApplyUpdate (fmupd ''A'' 2 fmempty),
             Increment (- 1), ApplyUpdate (fmupd ''B'' (- 4) fmempty)]
        (init ''B'' None)) = [0, 1, 3, 3, 3, 3] \<and>
   sorted (map (\<lambda>s. fst (valuef s))
     (trace [Increment 1, ApplyUpdate (fmupd ''A'' 2 fmempty), ApplyUpdate (fmupd ''A'' 2 fmempty),
             Increment (- 1), ApplyUpdate (fmupd ''B'' (- 4) fmempty)]
        (init ''B'' None)))"
proof -
  have v: "map (\<lambda>s. fst (valuef s))
     (trace [Increment 1, ApplyUpdate (fmupd ''A'' 2 fmempty), ApplyUpdate (fmupd ''A'' 2 fmempty),
             Increment (- 1), ApplyUpdate (fmupd ''B'' (- 4) fmempty)]
        (init ''B'' None)) = [0, 1, 3, 3, 3, 3]"
    by code_simp
  show ?thesis
    using v value_never_decreases [of "[Increment 1, ApplyUpdate (fmupd ''A'' 2 fmempty),
        ApplyUpdate (fmupd ''A'' 2 fmempty), Increment (- 1), ApplyUpdate (fmupd ''B'' (- 4) fmempty)]"
        "''B''" None "Increment 0"]
    by blast
qed

section \<open>Increment\<close>

text \<open>
  Claim C6. For every replica and every integer \<open>amount < 0\<close>, \<open>increment(amount)\<close>
  raises the invalid-argument error (Python's \<open>ValueError\<close>) and leaves the replica, its
  state map and hence \<open>value()\<close> unchanged.
\<close>

theorem increment_rejects_negative:
  "amount < 0 \<Longrightarrow>
     increment amount self = (Inl ValueError, self) \<and>
     fst (valuef (snd (increment amount self))) = fst (valuef self)"
  by (simp add: increment_def)

theorem increment_rejects_negative_witness:
  "(- 1 :: int) < 0 \<and>
   increment (- 1) \<lparr>replica_id = ''A'', state = PlainDict (fmupd ''A'' 2 fmempty)\<rparr>
     = (Inl ValueError, \<lparr>replica_id = ''A'', state = PlainDict (fmupd ''A'' 2 fmempty)\<rparr>) \<and>
   fst (valuef (snd (increment (- 1)
       \<lparr>replica_id = ''A'', state = PlainDict (fmupd ''A'' 2 fmempty)\<rparr>))) = 2"
proof -
  have h: "(- 1 :: int) < 0" by simp
  have v: "fst (valuef \<lparr>replica_id = ''A'', state = PlainDict (fmupd ''A'' 2 fmempty)\<rparr>) = 2"
    by (simp add: valuef_def sum_dict_values dict_get_def)
  show ?thesis
    using h v increment_rejects_negative [OF h,
        of "\<lparr>replica_id = ''A'', state = PlainDict (fmupd ''A'' 2 fmempty)\<rparr>"]
    by simp
qed

text \<open>
  Claim C1 says that in every reachable state \<open>increment(amount)\<close> with \<open>amount \<ge> 0\<close>
  adds \<open>amount\<close> to the entry of the replica's own id, creating it if absent, and
  returns the one-entry map with the new total. The code does not: a replica \<open>B\<close> that
  has received the update \<open>{A: 2}\<close> before its first increment, or was constructed with
  \<open>initial_state = {A: 2}\<close>, holds the plain dictionary built by \<open>merge\<close>, and
  \<open>increment(1)\<close> raises \<open>KeyError\<close> there, creating no entry for \<open>B\<close>.
\<close>

theorem increment_raises_after_merge:
  "apply_update (fmupd ''A'' 2 fmempty) (init ''B'' None)
     = \<lparr>replica_id = ''B'', state = PlainDict (fmupd ''A'' 2 fmempty)\<rparr> \<and>
   init ''B'' (Some (fmupd ''A'' 2 fmempty))
     = \<lparr>replica_id = ''B'', state = PlainDict (fmupd ''A'' 2 fmempty)\<rparr> \<and>
   increment 1 \<lparr>replica_id = ''B'', state = PlainDict (fmupd ''A'' 2 fmempty)\<rparr>
     = (Inl KeyError, \<lparr>replica_id = ''B'', state = PlainDict (fmupd ''A'' 2 fmempty)\<rparr>)"
proof -
  have ne: "fmupd ''A'' (2::int) fmempty \<noteq> fmempty"
    by (metis fmupd_lookup fmempty_lookup option.distinct(1))
  show ?thesis
    by (simp add: apply_update_def init_def Let_def merge_empty_single increment_def ne)
qed

end
